theory Spec2Isabelle
  imports Complex_Main
begin

section \<open>Store monitoring: the uptime engine of \<^verbatim>\<open>store_monitor/calculation.py\<close>\<close>

text \<open>
  The development embeds the five functions of \<^verbatim>\<open>calculation.py\<close> and the constants of
  \<^verbatim>\<open>config.py\<close> they use.

  Representation of the Python values:
  \<^item> a \<^verbatim>\<open>datetime\<close> is \<open>Naive n\<close> (no tzinfo, \<open>n\<close> the microseconds that its wall-clock
    reading is past the epoch) or \<open>Aware n\<close> (\<open>n\<close> the microseconds that its instant is
    past the epoch). The source passes every datetime it compares through
    \<^verbatim>\<open>if dt.tzinfo is None: dt = pytz.utc.localize(dt)\<close>, which is \<open>as_utc\<close>;
    the bounds of the type (years 1 to 9999) are not modelled, instants are unbounded
    integers, and adding a \<^verbatim>\<open>timedelta\<close> to an aware datetime moves its instant by that
    amount (as it does for the UTC datetimes that \<^verbatim>\<open>api.py\<close> passes in);
  \<^item> a \<^verbatim>\<open>timedelta\<close> is a number of microseconds;
  \<^item> a \<^verbatim>\<open>time\<close> is the number of microseconds since midnight, so that the order of
    \<^verbatim>\<open>time\<close> objects is the order of the numbers;
  \<^item> the local datetime that \<^verbatim>\<open>astimezone\<close> returns is a record of its calendar day
    (the proleptic Gregorian ordinal of \<^verbatim>\<open>date.toordinal()\<close>, day 1 being a Monday) and
    its time of day;
  \<^item> \<^verbatim>\<open>pytz.timezone\<close> is a parameter: a partial map from zone names to conversions of an
    instant to a local datetime; an unknown name is \<^verbatim>\<open>UnknownTimeZoneError\<close>;
  \<^item> the database session is a record of the rows of the two tables that are read;
  \<^item> the two counters of the engine are Python floats that only ever hold whole numbers
    far below \<open>2 ^ 53\<close>, where float addition of 1 is exact: they are integers here;
    the hour values, a float division by 60 and \<^verbatim>\<open>round(x, 2)\<close>, are exact rationals.
  Logging is left out.
\<close>

subsection \<open>Python values\<close>

type_synonym instant = int
type_synonym pytime = nat
type_synonym uuid = nat

datatype pydatetime = Naive int | Aware int

fun as_utc :: "pydatetime \<Rightarrow> instant" where
  "as_utc (Naive n) = n"
| "as_utc (Aware n) = n"

definition timedelta_minutes :: "int \<Rightarrow> int" where
  "timedelta_minutes n = n * 60000000"

definition timedelta_hours :: "int \<Rightarrow> int" where
  "timedelta_hours n = n * 3600000000"

definition timedelta_days :: "int \<Rightarrow> int" where
  "timedelta_days n = n * 86400000000"

definition mk_time :: "nat \<Rightarrow> nat \<Rightarrow> pytime" where
  "mk_time h m = (h * 60 + m) * 60000000"

definition time_min :: pytime where
  "time_min = 0"

definition time_max :: pytime where
  "time_max = 86399999999"

record local_dt =
  local_date :: int
  local_time :: pytime

definition weekday :: "local_dt \<Rightarrow> int" where
  "weekday ldt = (local_date ldt + 6) mod 7"

type_synonym tzinfo = "instant \<Rightarrow> local_dt"
type_synonym tzdb = "string \<Rightarrow> tzinfo option"

datatype error = UnknownTimeZoneError | KeyError int

subsection \<open>\<^verbatim>\<open>config.py\<close> and \<^verbatim>\<open>models.py\<close>\<close>

definition DEFAULT_TIMEZONE :: string where
  "DEFAULT_TIMEZONE = ''America/Chicago''"

definition DEFAULT_STORE_STATUS :: string where
  "DEFAULT_STORE_STATUS = ''inactive''"

definition POLL_FETCH_BUFFER_HOURS :: int where
  "POLL_FETCH_BUFFER_HOURS = 1"

record Store =
  store_id :: uuid
  timezone_str :: string

record StoreStatusPoll =
  poll_store_id :: uuid
  timestamp_utc :: pydatetime
  status :: string

record BusinessHour =
  bh_store_id :: uuid
  day_of_week :: int
  start_time_local :: pytime
  end_time_local :: pytime

record Session =
  business_hours :: "BusinessHour list"
  store_status_polls :: "StoreStatusPoll list"

type_synonym hours_map = "int \<Rightarrow> (pytime \<times> pytime) list option"

subsection \<open>\<^verbatim>\<open>get_business_hours_for_store\<close>\<close>

text \<open>
  \<^verbatim>\<open>business_hours_map = {day: [] for day in range(7)}\<close>; with no row every day gets the
  one pair \<^verbatim>\<open>(time.min, time.max)\<close>, otherwise each row is appended to the list of its
  day, and a day outside \<open>0..6\<close> is a \<^verbatim>\<open>KeyError\<close>.
\<close>

definition week_of :: "(pytime \<times> pytime) list \<Rightarrow> hours_map" where
  "week_of l = (\<lambda>day. if 0 \<le> day \<and> day < 7 then Some l else None)"

fun append_rows :: "hours_map \<Rightarrow> BusinessHour list \<Rightarrow> error + hours_map" where
  "append_rows m [] = Inr m"
| "append_rows m (bh # rest) =
     (case m (day_of_week bh) of
        None \<Rightarrow> Inl (KeyError (day_of_week bh))
      | Some l \<Rightarrow>
          append_rows (m(day_of_week bh \<mapsto> l @ [(start_time_local bh, end_time_local bh)])) rest)"

definition get_business_hours_for_store :: "Session \<Rightarrow> uuid \<Rightarrow> error + hours_map" where
  "get_business_hours_for_store db sid =
     (let hours_query = filter (\<lambda>bh. bh_store_id bh = sid) (business_hours db)
      in if hours_query = [] then Inr (week_of [(time_min, time_max)])
         else append_rows (week_of []) hours_query)"

subsection \<open>\<^verbatim>\<open>is_store_open\<close>\<close>

text \<open>The first loop, over the intervals of the local day; a \<^verbatim>\<open>return True\<close> ends it.\<close>

fun open_today :: "pytime \<Rightarrow> (pytime \<times> pytime) list \<Rightarrow> bool" where
  "open_today current_time [] = False"
| "open_today current_time ((start_time, end_time) # rest) =
     (if start_time = time_min \<and> end_time = time_max then True
      else if start_time \<le> end_time then
        (if start_time \<le> current_time \<and> current_time < end_time then True
         else open_today current_time rest)
      else
        (if start_time \<le> current_time then True
         else open_today current_time rest))"

text \<open>The second loop, over the intervals of the day before.\<close>

fun open_from_prev_day :: "pytime \<Rightarrow> (pytime \<times> pytime) list \<Rightarrow> bool" where
  "open_from_prev_day current_time [] = False"
| "open_from_prev_day current_time ((start_time, end_time) # rest) =
     (if start_time > end_time \<and> current_time < end_time then True
      else open_from_prev_day current_time rest)"

definition map_get :: "hours_map \<Rightarrow> int \<Rightarrow> (pytime \<times> pytime) list" where
  "map_get m day = (case m day of None \<Rightarrow> [] | Some l \<Rightarrow> l)"

definition is_store_open :: "local_dt \<Rightarrow> hours_map \<Rightarrow> bool" where
  "is_store_open ldt business_hours_map =
     (let day_of_week = weekday ldt;
          current_time = local_time ldt
      in if open_today current_time (map_get business_hours_map day_of_week) then True
         else
           (let prev_day_of_week = (day_of_week - 1 + 7) mod 7
            in if open_from_prev_day current_time (map_get business_hours_map prev_day_of_week)
               then True else False))"

subsection \<open>\<^verbatim>\<open>get_status_at_time\<close>\<close>

definition poll_time :: "StoreStatusPoll \<Rightarrow> instant" where
  "poll_time poll = as_utc (timestamp_utc poll)"

text \<open>The loop over the polls, with \<^verbatim>\<open>last_known_status\<close> as accumulator; \<^verbatim>\<open>break\<close> returns it.\<close>

fun status_scan :: "instant \<Rightarrow> string \<Rightarrow> StoreStatusPoll list \<Rightarrow> string" where
  "status_scan target last_known_status [] = last_known_status"
| "status_scan target last_known_status (poll # rest) =
     (if poll_time poll \<le> target then status_scan target (status poll) rest
      else last_known_status)"

definition get_status_at_time :: "instant \<Rightarrow> StoreStatusPoll list \<Rightarrow> string" where
  "get_status_at_time target_utc_dt polls = status_scan target_utc_dt DEFAULT_STORE_STATUS polls"

subsection \<open>\<^verbatim>\<open>calculate_store_uptime_for_period\<close>\<close>

text \<open>The \<^verbatim>\<open>try\<close>/\<^verbatim>\<open>except\<close> around \<^verbatim>\<open>pytz.timezone\<close>: the handler looks the default zone up.\<close>

definition resolve_timezone :: "tzdb \<Rightarrow> string \<Rightarrow> error + tzinfo" where
  "resolve_timezone pytz store_timezone_str =
     (case pytz store_timezone_str of
        Some store_tz \<Rightarrow> Inr store_tz
      | None \<Rightarrow>
          (case pytz DEFAULT_TIMEZONE of
             Some store_tz \<Rightarrow> Inr store_tz
           | None \<Rightarrow> Inl UnknownTimeZoneError))"

text \<open>The \<^verbatim>\<open>while current_minute_utc < interval_end_utc\<close> loop, the two counters as a pair.\<close>

function minute_loop ::
  "tzinfo \<Rightarrow> hours_map \<Rightarrow> StoreStatusPoll list \<Rightarrow> instant \<Rightarrow> instant \<Rightarrow> int \<times> int \<Rightarrow> int \<times> int"
where
  "minute_loop store_tz business_hours_map polls current_minute_utc interval_end_utc (up, down) =
     (if current_minute_utc < interval_end_utc then
        (let local_dt = store_tz current_minute_utc;
             is_open = is_store_open local_dt business_hours_map;
             counters =
               (if is_open then
                  (if get_status_at_time current_minute_utc polls = ''active''
                   then (up + 1, down) else (up, down + 1))
                else (up, down))
         in minute_loop store_tz business_hours_map polls
              (current_minute_utc + timedelta_minutes 1) interval_end_utc counters)
      else (up, down))"
  by pat_completeness auto
termination
  by (relation "measure (\<lambda>(tz, bhm, polls, cur, fin, c). nat (fin - cur))")
     (auto simp: timedelta_minutes_def)

definition calculate_store_uptime_for_period ::
  "tzdb \<Rightarrow> uuid \<Rightarrow> string \<Rightarrow> hours_map \<Rightarrow> pydatetime \<Rightarrow> pydatetime \<Rightarrow> StoreStatusPoll list
     \<Rightarrow> error + int \<times> int"
where
  "calculate_store_uptime_for_period pytz sid store_timezone_str business_hours_map
       interval_start_utc interval_end_utc polls =
     (case resolve_timezone pytz store_timezone_str of
        Inl e \<Rightarrow> Inl e
      | Inr store_tz \<Rightarrow>
          Inr (minute_loop store_tz business_hours_map polls
                 (as_utc interval_start_utc) (as_utc interval_end_utc) (0, 0)))"

subsection \<open>\<^verbatim>\<open>generate_report_data_for_store\<close>\<close>

text \<open>
  \<^verbatim>\<open>round\<close> on a float rounds its exact value, a tie to the even neighbour. A number of
  minutes divided by 60 is never a tie at two decimals, and it is at least \<open>1/600\<close> away
  from one, so that the float quotient rounds as the exact quotient does.
\<close>

definition py_round :: "rat \<Rightarrow> int" where
  "py_round x =
     (let f = \<lfloor>x\<rfloor>; d = x - of_int f
      in if d < 1 / 2 then f else if 1 / 2 < d then f + 1 else if even f then f else f + 1)"

definition py_round_ndigits :: "rat \<Rightarrow> nat \<Rightarrow> rat" where
  "py_round_ndigits x n = of_int (py_round (x * 10 ^ n)) / 10 ^ n"

text \<open>
  The query of the polls: the rows of the store between the two instants, both included,
  ordered by timestamp (rows of equal timestamp in the order of the table here; SQL leaves
  their order open).
\<close>

definition query_polls :: "Session \<Rightarrow> uuid \<Rightarrow> instant \<Rightarrow> instant \<Rightarrow> StoreStatusPoll list" where
  "query_polls db sid lo hi =
     sort_key poll_time
       (filter (\<lambda>p. poll_store_id p = sid \<and> lo \<le> poll_time p \<and> poll_time p \<le> hi)
          (store_status_polls db))"

record report_data =
  report_store_id :: uuid
  uptime_last_hour :: int
  uptime_last_day :: rat
  uptime_last_week :: rat
  downtime_last_hour :: int
  downtime_last_day :: rat
  downtime_last_week :: rat

definition generate_report_data_for_store ::
  "tzdb \<Rightarrow> Session \<Rightarrow> Store \<Rightarrow> pydatetime \<Rightarrow> error + report_data"
where
  "generate_report_data_for_store pytz db store reference_time_utc =
     (let sid = store_id store;
          store_timezone_str = timezone_str store;
          ref = as_utc reference_time_utc
      in case get_business_hours_for_store db sid of
           Inl e \<Rightarrow> Inl e
         | Inr business_hours_map \<Rightarrow>
            (let hour_ago = ref - timedelta_hours 1;
                 day_ago = ref - timedelta_days 1;
                 week_ago = ref - timedelta_days 7;
                 poll_query_start_time = week_ago - timedelta_hours POLL_FETCH_BUFFER_HOURS;
                 polls = query_polls db sid poll_query_start_time ref
             in case calculate_store_uptime_for_period pytz sid store_timezone_str
                       business_hours_map (Aware hour_ago) (Aware ref) polls of
                  Inl e \<Rightarrow> Inl e
                | Inr (up_hour, down_hour) \<Rightarrow>
             (case calculate_store_uptime_for_period pytz sid store_timezone_str
                       business_hours_map (Aware day_ago) (Aware ref) polls of
                  Inl e \<Rightarrow> Inl e
                | Inr (up_day, down_day) \<Rightarrow>
             (case calculate_store_uptime_for_period pytz sid store_timezone_str
                       business_hours_map (Aware week_ago) (Aware ref) polls of
                  Inl e \<Rightarrow> Inl e
                | Inr (up_week, down_week) \<Rightarrow>
                    Inr \<lparr> report_store_id = sid,
                          uptime_last_hour = py_round (of_int up_hour),
                          uptime_last_day = py_round_ndigits (of_int up_day / 60) 2,
                          uptime_last_week = py_round_ndigits (of_int up_week / 60) 2,
                          downtime_last_hour = py_round (of_int down_hour),
                          downtime_last_day = py_round_ndigits (of_int down_day / 60) 2,
                          downtime_last_week = py_round_ndigits (of_int down_week / 60) 2 \<rparr>))))"

subsection \<open>The instants the engine visits, and what a visit adds\<close>

text \<open>
  \<open>scanned_minutes\<close> is the loop of \<open>minute_loop\<close> with its body replaced by a record of
  \<^verbatim>\<open>current_minute_utc\<close>: the values the loop variable takes while the body runs.
\<close>

function scanned_minutes :: "instant \<Rightarrow> instant \<Rightarrow> instant list" where
  "scanned_minutes current_minute_utc interval_end_utc =
     (if current_minute_utc < interval_end_utc
      then current_minute_utc #
             scanned_minutes (current_minute_utc + timedelta_minutes 1) interval_end_utc
      else [])"
  by pat_completeness auto
termination
  by (relation "measure (\<lambda>(cur, fin). nat (fin - cur))") (auto simp: timedelta_minutes_def)

definition counts_up :: "tzinfo \<Rightarrow> hours_map \<Rightarrow> StoreStatusPoll list \<Rightarrow> instant \<Rightarrow> bool" where
  "counts_up store_tz business_hours_map polls t =
     (is_store_open (store_tz t) business_hours_map \<and> get_status_at_time t polls = ''active'')"

definition counts_down :: "tzinfo \<Rightarrow> hours_map \<Rightarrow> StoreStatusPoll list \<Rightarrow> instant \<Rightarrow> bool" where
  "counts_down store_tz business_hours_map polls t =
     (is_store_open (store_tz t) business_hours_map \<and> get_status_at_time t polls \<noteq> ''active'')"

definition bucket_start :: "instant \<Rightarrow> nat \<Rightarrow> instant" where
  "bucket_start window_start k = window_start + timedelta_minutes (int k)"

definition minutes_in_window :: "instant \<Rightarrow> instant \<Rightarrow> nat" where
  "minutes_in_window window_start window_end =
     nat ((window_end - window_start + (timedelta_minutes 1 - 1)) div timedelta_minutes 1)"

text \<open>
  The minutes counted up and down among the first \<open>n\<close> one-minute buckets from the start
  of a window, by the index of the bucket.
\<close>
definition minutes_up :: "tzinfo \<Rightarrow> hours_map \<Rightarrow> StoreStatusPoll list \<Rightarrow> instant \<Rightarrow> nat \<Rightarrow> int" where
  "minutes_up store_tz business_hours_map polls window_start n =
     int (length (filter (\<lambda>k. counts_up store_tz business_hours_map polls
                                (bucket_start window_start k)) [0..<n]))"

definition minutes_down :: "tzinfo \<Rightarrow> hours_map \<Rightarrow> StoreStatusPoll list \<Rightarrow> instant \<Rightarrow> nat \<Rightarrow> int" where
  "minutes_down store_tz business_hours_map polls window_start n =
     int (length (filter (\<lambda>k. counts_down store_tz business_hours_map polls
                                (bucket_start window_start k)) [0..<n]))"

subsection \<open>Counting the polls that the scans look at\<close>

text \<open>
  The same two loops, returning with their result the number of times the body of
  \<^verbatim>\<open>for poll in polls\<close> has run (the run that ends in \<^verbatim>\<open>break\<close> included).
\<close>

fun status_scan_cost :: "instant \<Rightarrow> string \<Rightarrow> StoreStatusPoll list \<Rightarrow> string \<times> nat" where
  "status_scan_cost target last_known_status [] = (last_known_status, 0)"
| "status_scan_cost target last_known_status (poll # rest) =
     (if poll_time poll \<le> target then
        (case status_scan_cost target (status poll) rest of (s, c) \<Rightarrow> (s, Suc c))
      else (last_known_status, 1))"

definition get_status_at_time_cost :: "instant \<Rightarrow> StoreStatusPoll list \<Rightarrow> string \<times> nat" where
  "get_status_at_time_cost target_utc_dt polls =
     status_scan_cost target_utc_dt DEFAULT_STORE_STATUS polls"

function minute_loop_cost ::
  "tzinfo \<Rightarrow> hours_map \<Rightarrow> StoreStatusPoll list \<Rightarrow> instant \<Rightarrow> instant \<Rightarrow> (int \<times> int) \<times> nat
     \<Rightarrow> (int \<times> int) \<times> nat"
where
  "minute_loop_cost store_tz business_hours_map polls current_minute_utc interval_end_utc
       ((up, down), looked) =
     (if current_minute_utc < interval_end_utc then
        (let local_dt = store_tz current_minute_utc;
             is_open = is_store_open local_dt business_hours_map;
             state =
               (if is_open then
                  (case get_status_at_time_cost current_minute_utc polls of
                     (current_status, c) \<Rightarrow>
                       (if current_status = ''active''
                        then ((up + 1, down), looked + c) else ((up, down + 1), looked + c)))
                else ((up, down), looked))
         in minute_loop_cost store_tz business_hours_map polls
              (current_minute_utc + timedelta_minutes 1) interval_end_utc state)
      else ((up, down), looked))"
  by pat_completeness auto
termination
  by (relation "measure (\<lambda>(tz, bhm, polls, cur, fin, c). nat (fin - cur))")
     (auto simp: timedelta_minutes_def)

subsection \<open>A small timezone table for evaluating the functions\<close>

text \<open>
  Two zones of fixed offset stand in for \<^verbatim>\<open>pytz\<close> where the functions are evaluated on
  concrete inputs: UTC, and UTC minus six hours under the name of the default zone (Central
  Standard Time; daylight saving time is left out). The epoch, 1970-01-01, is day 719163 and a Thursday.
\<close>

definition fixed_offset_tz :: "int \<Rightarrow> tzinfo" where
  "fixed_offset_tz offset t =
     \<lparr>local_date = (t + offset) div 86400000000 + 719163,
      local_time = nat ((t + offset) mod 86400000000)\<rparr>"

definition example_pytz :: tzdb where
  "example_pytz name =
     (if name = ''UTC'' then Some (fixed_offset_tz 0)
      else if name = ''America/Chicago'' then Some (fixed_offset_tz (- 21600000000))
      else None)"

section \<open>The status timeline\<close>

lemma timedelta_minutes_pos: "0 < timedelta_minutes 1"
  by (simp add: timedelta_minutes_def)

lemma status_scan_filter:
  "sorted (map poll_time polls) \<Longrightarrow>
   status_scan t acc polls =
     (case filter (\<lambda>p. poll_time p \<le> t) polls of
        [] \<Rightarrow> acc
      | q # qs \<Rightarrow> status (last (q # qs)))"
proof (induction polls arbitrary: acc)
  case Nil
  then show ?case by simp
next
  case (Cons p ps)
  show ?case
  proof (cases "poll_time p \<le> t")
    case True
    from Cons.prems have "sorted (map poll_time ps)" by simp
    from Cons.IH [OF this, of "status p"] True show ?thesis
      by (simp split: list.splits)
  next
    case False
    from Cons.prems have "\<forall>q\<in>set ps. poll_time p \<le> poll_time q" by simp
    with False have "filter (\<lambda>q. poll_time q \<le> t) ps = []"
      by (auto simp: filter_empty_conv)
    with False show ?thesis by simp
  qed
qed

lemma status_scan_at_index:
  "j < length polls \<Longrightarrow> \<forall>k\<le>j. poll_time (polls ! k) \<le> t \<Longrightarrow>
   (Suc j < length polls \<longrightarrow> t < poll_time (polls ! Suc j)) \<Longrightarrow>
   status_scan t acc polls = status (polls ! j)"
proof (induction polls arbitrary: j acc)
  case Nil
  then show ?case by simp
next
  case (Cons p ps)
  from Cons.prems(2) have p: "poll_time p \<le> t" by force
  show ?case
  proof (cases j)
    case 0
    with Cons.prems p show ?thesis by (cases ps) auto
  next
    case (Suc i)
    with Cons.prems have "i < length ps" by simp
    moreover from Cons.prems(2) Suc have "\<forall>k\<le>i. poll_time (ps ! k) \<le> t" by auto
    moreover from Cons.prems(3) Suc have "Suc i < length ps \<longrightarrow> t < poll_time (ps ! Suc i)" by simp
    ultimately have "status_scan t (status p) ps = status (ps ! i)" by (rule Cons.IH)
    with p Suc show ?thesis by simp
  qed
qed

lemma status_scan_all_later:
  "\<forall>p\<in>set polls. t < poll_time p \<Longrightarrow> status_scan t acc polls = acc"
  by (cases polls) auto

text \<open>
  Claim C2. On a list of polls whose instants never decrease, \<open>get_status_at_time\<close>
  returns the default status when no poll is at or before the target, and otherwise the
  status of the last poll of the list that is at or before it; when poll \<open>i\<close> is at or
  before the target and poll \<open>i + 1\<close> (if there is one) is after it, the answer is the
  status of poll \<open>i\<close>; for the empty list the answer is the default.
\<close>

theorem get_status_at_time_locf:
  assumes "sorted (map poll_time polls)"
  shows "((\<forall>p\<in>set polls. \<not> poll_time p \<le> t) \<longrightarrow>
            get_status_at_time t polls = DEFAULT_STORE_STATUS)
       \<and> ((\<exists>p\<in>set polls. poll_time p \<le> t) \<longrightarrow>
            get_status_at_time t polls = status (last (filter (\<lambda>p. poll_time p \<le> t) polls)))
       \<and> (\<forall>i. i < length polls \<and> poll_time (polls ! i) \<le> t
              \<and> (Suc i < length polls \<longrightarrow> t < poll_time (polls ! Suc i)) \<longrightarrow>
            get_status_at_time t polls = status (polls ! i))
       \<and> get_status_at_time t [] = DEFAULT_STORE_STATUS"
proof (intro conjI impI allI)
  assume "\<forall>p\<in>set polls. \<not> poll_time p \<le> t"
  then have "\<forall>p\<in>set polls. t < poll_time p" by auto
  then show "get_status_at_time t polls = DEFAULT_STORE_STATUS"
    unfolding get_status_at_time_def by (rule status_scan_all_later)
next
  assume "\<exists>p\<in>set polls. poll_time p \<le> t"
  then have "filter (\<lambda>p. poll_time p \<le> t) polls \<noteq> []"
    by (auto simp: filter_empty_conv)
  with status_scan_filter [OF assms, of t DEFAULT_STORE_STATUS]
  show "get_status_at_time t polls = status (last (filter (\<lambda>p. poll_time p \<le> t) polls))"
    unfolding get_status_at_time_def by (simp split: list.splits)
next
  fix i
  assume h: "i < length polls \<and> poll_time (polls ! i) \<le> t
     \<and> (Suc i < length polls \<longrightarrow> t < poll_time (polls ! Suc i))"
  have "\<forall>k\<le>i. poll_time (polls ! k) \<le> t"
  proof (intro allI impI)
    fix k assume "k \<le> i"
    with assms h have "map poll_time polls ! k \<le> map poll_time polls ! i"
      by (intro sorted_nth_mono) auto
    with h \<open>k \<le> i\<close> show "poll_time (polls ! k) \<le> t" by simp
  qed
  with h show "get_status_at_time t polls = status (polls ! i)"
    unfolding get_status_at_time_def by (intro status_scan_at_index) auto
next
  show "get_status_at_time t [] = DEFAULT_STORE_STATUS"
    by (simp add: get_status_at_time_def)
qed

theorem get_status_at_time_locf_witness:
  "get_status_at_time 60000000
     [\<lparr>poll_store_id = 1, timestamp_utc = Aware 0, status = ''active''\<rparr>,
      \<lparr>poll_store_id = 1, timestamp_utc = Naive 120000000, status = ''inactive''\<rparr>] = ''active''
   \<and> get_status_at_time (- 5)
     [\<lparr>poll_store_id = 1, timestamp_utc = Aware 0, status = ''active''\<rparr>,
      \<lparr>poll_store_id = 1, timestamp_utc = Naive 120000000, status = ''inactive''\<rparr>] = ''inactive''"
  using get_status_at_time_locf [of
     "[\<lparr>poll_store_id = 1, timestamp_utc = Aware 0, status = ''active''\<rparr>,
      \<lparr>poll_store_id = 1, timestamp_utc = Naive 120000000, status = ''inactive''\<rparr>]" 60000000]
    get_status_at_time_locf [of
     "[\<lparr>poll_store_id = 1, timestamp_utc = Aware 0, status = ''active''\<rparr>,
      \<lparr>poll_store_id = 1, timestamp_utc = Naive 120000000, status = ''inactive''\<rparr>]" "- 5"]
  by (simp add: poll_time_def DEFAULT_STORE_STATUS_def)

subsection \<open>Polls of equal instant\<close>




section \<open>The schedule\<close>

lemma weekday_range: "0 \<le> weekday ldt \<and> weekday ldt < 7"
  by (simp add: weekday_def)

lemma open_today_overnight:
  "(s, e) \<in> set l \<Longrightarrow> e < s \<Longrightarrow> s \<le> t \<Longrightarrow> open_today t l"
  by (induction t l rule: open_today.induct) auto

lemma open_from_prev_day_overnight:
  "(s, e) \<in> set l \<Longrightarrow> e < s \<Longrightarrow> t < e \<Longrightarrow> open_from_prev_day t l"
  by (induction t l rule: open_from_prev_day.induct) auto

text \<open>
  Claim C3. When the table has no business-hour row for the store,
  \<open>get_business_hours_for_store\<close> returns a map under which \<open>is_store_open\<close> is true of
  every local datetime, hence of the local datetime of every instant in every timezone.
\<close>

theorem no_business_hours_always_open:
  assumes "filter (\<lambda>bh. bh_store_id bh = sid) (business_hours db) = []"
  shows "\<exists>m. get_business_hours_for_store db sid = Inr m
           \<and> (\<forall>ldt. is_store_open ldt m)
           \<and> (\<forall>(store_tz :: tzinfo) (t :: instant). is_store_open (store_tz t) m)"
proof -
  have m: "get_business_hours_for_store db sid = Inr (week_of [(time_min, time_max)])"
    using assms by (simp add: get_business_hours_for_store_def)
  have "is_store_open ldt (week_of [(time_min, time_max)])" for ldt
    using weekday_range [of ldt] by (simp add: is_store_open_def map_get_def week_of_def)
  with m show ?thesis by blast
qed

theorem no_business_hours_always_open_witness:
  "\<exists>m. get_business_hours_for_store
          \<lparr>business_hours =
             [\<lparr>bh_store_id = 2, day_of_week = 0, start_time_local = mk_time 9 0,
               end_time_local = mk_time 17 0\<rparr>],
           store_status_polls = []\<rparr> 1 = Inr m
       \<and> is_store_open \<lparr>local_date = 739000, local_time = mk_time 3 15\<rparr> m"
proof -
  have "filter (\<lambda>bh. bh_store_id bh = 1)
          (business_hours
            \<lparr>business_hours =
               [\<lparr>bh_store_id = 2, day_of_week = 0, start_time_local = mk_time 9 0,
                 end_time_local = mk_time 17 0\<rparr>],
             store_status_polls = []\<rparr>) = []"
    by simp
  from no_business_hours_always_open [OF this] show ?thesis by blast
qed

text \<open>
  Claim C4. Under a map whose only interval is 22:00 to 02:00 on Monday (day 0), a local
  datetime on a Monday at 23:30 is open, one on a Tuesday at 01:00 is open, and one on a
  Tuesday at 03:00 is closed. In any map, an interval of day \<open>d\<close> whose start is after its
  end makes every time from its start on open on day \<open>d\<close> (the first loop), and every time
  before its end open on the day after \<open>d\<close> (the loop over the previous day).
\<close>

theorem overnight_wrap:
  "(map_get m 0 = [(mk_time 22 0, mk_time 2 0)] \<and> (\<forall>day. day \<noteq> 0 \<longrightarrow> map_get m day = []) \<longrightarrow>
      (\<forall>ldt. weekday ldt = 0 \<and> local_time ldt = mk_time 23 30 \<longrightarrow> is_store_open ldt m)
    \<and> (\<forall>ldt. weekday ldt = 1 \<and> local_time ldt = mk_time 1 0 \<longrightarrow> is_store_open ldt m)
    \<and> (\<forall>ldt. weekday ldt = 1 \<and> local_time ldt = mk_time 3 0 \<longrightarrow> \<not> is_store_open ldt m))
   \<and> (0 \<le> d \<and> d < 7 \<and> (s, e) \<in> set (map_get m' d) \<and> e < s \<longrightarrow>
      (\<forall>ldt. weekday ldt = d \<and> s \<le> local_time ldt \<longrightarrow> is_store_open ldt m')
    \<and> (\<forall>ldt. weekday ldt = (d + 1) mod 7 \<and> local_time ldt < e \<longrightarrow> is_store_open ldt m'))"
proof (intro conjI impI allI)
  fix ldt
  assume m: "map_get m 0 = [(mk_time 22 0, mk_time 2 0)] \<and> (\<forall>day. day \<noteq> 0 \<longrightarrow> map_get m day = [])"
    and l: "weekday ldt = 0 \<and> local_time ldt = mk_time 23 30"
  then show "is_store_open ldt m"
    by (simp add: is_store_open_def mk_time_def time_min_def time_max_def)
next
  fix ldt
  assume m: "map_get m 0 = [(mk_time 22 0, mk_time 2 0)] \<and> (\<forall>day. day \<noteq> 0 \<longrightarrow> map_get m day = [])"
    and l: "weekday ldt = 1 \<and> local_time ldt = mk_time 1 0"
  then show "is_store_open ldt m"
    by (simp add: is_store_open_def mk_time_def time_min_def time_max_def)
next
  fix ldt
  assume m: "map_get m 0 = [(mk_time 22 0, mk_time 2 0)] \<and> (\<forall>day. day \<noteq> 0 \<longrightarrow> map_get m day = [])"
    and l: "weekday ldt = 1 \<and> local_time ldt = mk_time 3 0"
  then show "\<not> is_store_open ldt m"
    by (simp add: is_store_open_def mk_time_def time_min_def time_max_def)
next
  fix ldt
  assume h: "0 \<le> d \<and> d < 7 \<and> (s, e) \<in> set (map_get m' d) \<and> e < s"
    and l: "weekday ldt = d \<and> s \<le> local_time ldt"
  then have "open_today (local_time ldt) (map_get m' (weekday ldt))"
    by (intro open_today_overnight [of s e]) auto
  then show "is_store_open ldt m'"
    by (simp add: is_store_open_def)
next
  fix ldt
  assume h: "0 \<le> d \<and> d < 7 \<and> (s, e) \<in> set (map_get m' d) \<and> e < s"
    and l: "weekday ldt = (d + 1) mod 7 \<and> local_time ldt < e"
  from h have "0 \<le> d" and "d < 7" by simp_all
  then have "((d + 1) mod 7 - 1 + 7) mod 7 = d" by presburger
  with l have "(weekday ldt - 1 + 7) mod 7 = d" by simp
  with h l have "open_from_prev_day (local_time ldt) (map_get m' ((weekday ldt - 1 + 7) mod 7))"
    by (intro open_from_prev_day_overnight [of s e]) auto
  then show "is_store_open ldt m'"
    by (simp add: is_store_open_def)
qed

theorem overnight_wrap_witness:
  "get_business_hours_for_store
      \<lparr>business_hours =
         [\<lparr>bh_store_id = 1, day_of_week = 0, start_time_local = mk_time 22 0,
           end_time_local = mk_time 2 0\<rparr>],
       store_status_polls = []\<rparr> 1
     = Inr ((week_of [])(0 \<mapsto> [(mk_time 22 0, mk_time 2 0)]))
   \<and> is_store_open \<lparr>local_date = 1, local_time = mk_time 23 30\<rparr>
         ((week_of [])(0 \<mapsto> [(mk_time 22 0, mk_time 2 0)]))
   \<and> is_store_open \<lparr>local_date = 2, local_time = mk_time 1 0\<rparr>
         ((week_of [])(0 \<mapsto> [(mk_time 22 0, mk_time 2 0)]))
   \<and> \<not> is_store_open \<lparr>local_date = 2, local_time = mk_time 3 0\<rparr>
         ((week_of [])(0 \<mapsto> [(mk_time 22 0, mk_time 2 0)]))
   \<and> is_store_open \<lparr>local_date = 1, local_time = mk_time 22 0\<rparr>
         ((week_of [])(0 \<mapsto> [(mk_time 22 0, mk_time 2 0)]))
   \<and> is_store_open \<lparr>local_date = 2, local_time = mk_time 1 59\<rparr>
         ((week_of [])(0 \<mapsto> [(mk_time 22 0, mk_time 2 0)]))"
proof -
  let ?M = "(week_of [])(0 \<mapsto> [(mk_time 22 0, mk_time 2 0)])"
  have built: "get_business_hours_for_store
      \<lparr>business_hours =
         [\<lparr>bh_store_id = 1, day_of_week = 0, start_time_local = mk_time 22 0,
           end_time_local = mk_time 2 0\<rparr>],
       store_status_polls = []\<rparr> 1 = Inr ?M"
    by (simp add: get_business_hours_for_store_def week_of_def)
  have only: "map_get ?M 0 = [(mk_time 22 0, mk_time 2 0)]
      \<and> (\<forall>day. day \<noteq> 0 \<longrightarrow> map_get ?M day = [])"
    by (simp add: map_get_def week_of_def)
  have overnight: "(0::int) \<le> 0 \<and> (0::int) < 7
      \<and> (mk_time 22 0, mk_time 2 0) \<in> set (map_get ?M 0) \<and> mk_time 2 0 < mk_time 22 0"
    by (simp add: map_get_def mk_time_def)
  have days: "weekday \<lparr>local_date = 1, local_time = x\<rparr> = 0"
    "weekday \<lparr>local_date = 2, local_time = x\<rparr> = 1" for x
    by (simp_all add: weekday_def)
  have times: "mk_time 22 0 \<le> mk_time 22 0" "mk_time 1 59 < mk_time 2 0"
    by (simp_all add: mk_time_def)
  from overnight_wrap [of ?M 0 "mk_time 22 0" "mk_time 2 0" ?M] only overnight
  have "(\<forall>ldt. weekday ldt = 0 \<and> local_time ldt = mk_time 23 30 \<longrightarrow> is_store_open ldt ?M)"
    and "(\<forall>ldt. weekday ldt = 1 \<and> local_time ldt = mk_time 1 0 \<longrightarrow> is_store_open ldt ?M)"
    and "(\<forall>ldt. weekday ldt = 1 \<and> local_time ldt = mk_time 3 0 \<longrightarrow> \<not> is_store_open ldt ?M)"
    and "(\<forall>ldt. weekday ldt = 0 \<and> mk_time 22 0 \<le> local_time ldt \<longrightarrow> is_store_open ldt ?M)"
    and "(\<forall>ldt. weekday ldt = (0 + 1) mod 7 \<and> local_time ldt < mk_time 2 0 \<longrightarrow>
            is_store_open ldt ?M)"
    by blast+
  with built days times show ?thesis by simp
qed

text \<open>
  Claim C10. \<open>is_store_open\<close> reads the weekday and the time of day of the local datetime
  and nothing else: two local datetimes with the same weekday and the same time of day
  get the same answer under every map, and so do two that are seven days apart.
\<close>

theorem is_store_open_weekly_periodic:
  "(weekday a = weekday b \<and> local_time a = local_time b \<longrightarrow>
      is_store_open a m = is_store_open b m)
   \<and> is_store_open (ldt\<lparr>local_date := local_date ldt + 7\<rparr>) m = is_store_open ldt m"
proof -
  have "weekday (ldt\<lparr>local_date := local_date ldt + 7\<rparr>) = weekday ldt"
    by (simp add: weekday_def, presburger)
  then show ?thesis
    unfolding is_store_open_def by simp
qed

theorem is_store_open_weekly_periodic_witness:
  "is_store_open \<lparr>local_date = 1, local_time = mk_time 23 30\<rparr>
      ((week_of [])(0 \<mapsto> [(mk_time 22 0, mk_time 2 0)]))
   = is_store_open \<lparr>local_date = 736002, local_time = mk_time 23 30\<rparr>
      ((week_of [])(0 \<mapsto> [(mk_time 22 0, mk_time 2 0)]))"
  using is_store_open_weekly_periodic [of "\<lparr>local_date = 1, local_time = mk_time 23 30\<rparr>"
      "\<lparr>local_date = 736002, local_time = mk_time 23 30\<rparr>"
      "(week_of [])(0 \<mapsto> [(mk_time 22 0, mk_time 2 0)])"]
  by (simp add: weekday_def)

section \<open>The engine\<close>

declare minute_loop.simps [simp del] scanned_minutes.simps [simp del]

lemma bucket_start_0: "bucket_start s 0 = s"
  by (simp add: bucket_start_def timedelta_minutes_def)

lemma bucket_start_Suc: "bucket_start s (Suc k) = bucket_start (s + timedelta_minutes 1) k"
  by (simp add: bucket_start_def timedelta_minutes_def algebra_simps)

lemma minutes_in_window_empty: "\<not> s < e \<Longrightarrow> minutes_in_window s e = 0"
proof -
  assume "\<not> s < e"
  then have "e - s + (60000000 - 1) < 60000000" by simp
  then have "(e - s + (60000000 - 1)) div 60000000 < 1"
    by simp
  then show ?thesis
    by (simp add: minutes_in_window_def timedelta_minutes_def)
qed

lemma minutes_in_window_step:
  "s < e \<Longrightarrow> minutes_in_window s e = Suc (minutes_in_window (s + timedelta_minutes 1) e)"
proof -
  assume "s < e"
  then have nn: "0 \<le> (e - s - 1) div 60000000"
    by (simp add: pos_imp_zdiv_nonneg_iff)
  have "(e - s + (60000000 - 1)) div 60000000 = (e - s - 1 + 1 * 60000000) div 60000000"
    by (simp add: algebra_simps)
  also have "\<dots> = (e - s - 1) div 60000000 + 1"
    by (simp only: div_mult_self1 [of "60000000::int"] div_add_self2)
  finally have "nat ((e - s + (60000000 - 1)) div 60000000) = Suc (nat ((e - s - 1) div 60000000))"
    using nn by (simp add: nat_add_distrib)
  moreover have "e - (s + 60000000) + (60000000 - 1) = e - s - 1" by simp
  ultimately show ?thesis
    by (simp add: minutes_in_window_def timedelta_minutes_def)
qed

lemma scanned_minutes_buckets:
  "scanned_minutes s e = map (bucket_start s) [0..<minutes_in_window s e]"
proof (induction s e rule: scanned_minutes.induct)
  case (1 s e)
  show ?case
  proof (cases "s < e")
    case True
    have "scanned_minutes s e = s # scanned_minutes (s + timedelta_minutes 1) e"
      using True by (subst scanned_minutes.simps) simp
    also have "\<dots> = s # map (bucket_start (s + timedelta_minutes 1))
        [0..<minutes_in_window (s + timedelta_minutes 1) e]"
      using "1.IH" [OF True] by simp
    also have "\<dots> = map (bucket_start s) [0..<Suc (minutes_in_window (s + timedelta_minutes 1) e)]"
      by (simp only: map_upt_Suc bucket_start_0 bucket_start_Suc)
    finally show ?thesis
      using minutes_in_window_step [OF True] by simp
  next
    case False
    then show ?thesis
      by (subst scanned_minutes.simps) (simp add: minutes_in_window_empty)
  qed
qed

lemma bucket_in_window: "bucket_start s k < e \<longleftrightarrow> k < minutes_in_window s e"
proof (induction k arbitrary: s)
  case 0
  show ?case
  proof (cases "s < e")
    case True
    then show ?thesis by (simp add: bucket_start_0 minutes_in_window_step)
  next
    case False
    then show ?thesis by (simp add: bucket_start_0 minutes_in_window_empty)
  qed
next
  case (Suc k)
  show ?case
  proof (cases "s < e")
    case True
    then show ?thesis
      using Suc [of "s + timedelta_minutes 1"]
      by (simp add: bucket_start_Suc minutes_in_window_step)
  next
    case False
    moreover have "s \<le> bucket_start s (Suc k)"
      by (simp add: bucket_start_def timedelta_minutes_def)
    ultimately show ?thesis
      by (simp add: minutes_in_window_empty)
  qed
qed

lemma minute_loop_scanned:
  "minute_loop tz bhm polls s e c =
     (fst c + int (length (filter (counts_up tz bhm polls) (scanned_minutes s e))),
      snd c + int (length (filter (counts_down tz bhm polls) (scanned_minutes s e))))"
proof (induction tz bhm polls s e c rule: minute_loop.induct)
  case (1 tz bhm polls s e up down)
  show ?case
  proof (cases "s < e")
    case True
    note IH = "1.IH" [OF True refl refl refl]
    have sm: "scanned_minutes s e = s # scanned_minutes (s + timedelta_minutes 1) e"
      using True by (subst scanned_minutes.simps) simp
    have cu: "counts_up tz bhm polls s \<longleftrightarrow>
        is_store_open (tz s) bhm \<and> get_status_at_time s polls = ''active''"
      by (simp add: counts_up_def)
    have cd: "counts_down tz bhm polls s \<longleftrightarrow>
        is_store_open (tz s) bhm \<and> get_status_at_time s polls \<noteq> ''active''"
      by (simp add: counts_down_def)
    show ?thesis
      by (subst minute_loop.simps) (simp add: True IH sm cu cd Let_def)
  next
    case False
    then have "scanned_minutes s e = []"
      by (subst scanned_minutes.simps) simp
    with False show ?thesis
      by (subst minute_loop.simps) simp
  qed
qed

lemma length_filter_buckets:
  "length (filter (P \<circ> f) [0..<n]) = card {k. k < n \<and> P (f k)}"
proof -
  have "{i. i < length [0..<n] \<and> (P \<circ> f) ([0..<n] ! i)} = {k. k < n \<and> P (f k)}"
    by auto
  then show ?thesis
    by (simp only: length_filter_conv_card)
qed

lemma minute_loop_card:
  "minute_loop tz bhm polls s e (0, 0) =
     (int (card {k. bucket_start s k < e \<and> counts_up tz bhm polls (bucket_start s k)}),
      int (card {k. bucket_start s k < e \<and> counts_down tz bhm polls (bucket_start s k)}))"
  by (simp add: minute_loop_scanned scanned_minutes_buckets length_filter_buckets
      bucket_in_window)

lemma open_buckets_split:
  "card {k. bucket_start s k < e \<and> counts_up tz bhm polls (bucket_start s k)}
   + card {k. bucket_start s k < e \<and> counts_down tz bhm polls (bucket_start s k)}
   = card {k. bucket_start s k < e \<and> is_store_open (tz (bucket_start s k)) bhm}"
proof -
  let ?U = "{k. bucket_start s k < e \<and> counts_up tz bhm polls (bucket_start s k)}"
  let ?D = "{k. bucket_start s k < e \<and> counts_down tz bhm polls (bucket_start s k)}"
  have fin: "finite {k. bucket_start s k < e}"
    by (simp add: bucket_in_window)
  have "finite ?U" and "finite ?D"
    using fin by simp_all
  moreover have "?U \<inter> ?D = {}"
    by (auto simp: counts_up_def counts_down_def)
  ultimately have "card ?U + card ?D = card (?U \<union> ?D)"
    by (simp add: card_Un_disjoint)
  moreover have "?U \<union> ?D = {k. bucket_start s k < e \<and> is_store_open (tz (bucket_start s k)) bhm}"
    by (auto simp: counts_up_def counts_down_def)
  ultimately show ?thesis by simp
qed

text \<open>
  Claim C1. When the timezone resolves (by name or by the default), the engine returns a
  pair of counts, neither negative, whose sum is the number of one-minute buckets
  \<open>start + k minutes\<close> that begin before the end of the window and whose local datetime
  is open; a bucket that is closed adds to neither count.
\<close>

theorem open_minutes_conservation:
  assumes "resolve_timezone pytz store_timezone_str = Inr store_tz"
  shows "\<exists>up down.
           calculate_store_uptime_for_period pytz sid store_timezone_str bhm
             interval_start_utc interval_end_utc polls = Inr (up, down)
         \<and> 0 \<le> up \<and> 0 \<le> down
         \<and> up + down =
             int (card {k. bucket_start (as_utc interval_start_utc) k < as_utc interval_end_utc
                         \<and> is_store_open
                             (store_tz (bucket_start (as_utc interval_start_utc) k)) bhm})"
proof -
  let ?s = "as_utc interval_start_utc" and ?e = "as_utc interval_end_utc"
  let ?up = "int (card {k. bucket_start ?s k < ?e \<and> counts_up store_tz bhm polls (bucket_start ?s k)})"
  let ?down = "int (card {k. bucket_start ?s k < ?e \<and> counts_down store_tz bhm polls (bucket_start ?s k)})"
  have "calculate_store_uptime_for_period pytz sid store_timezone_str bhm
          interval_start_utc interval_end_utc polls = Inr (?up, ?down)"
    using assms by (simp add: calculate_store_uptime_for_period_def minute_loop_card)
  moreover have "?up + ?down =
      int (card {k. bucket_start ?s k < ?e \<and> is_store_open (store_tz (bucket_start ?s k)) bhm})"
    using open_buckets_split [of ?s ?e store_tz bhm polls] by linarith
  ultimately show ?thesis by force
qed

lemma week_of_full_open: "is_store_open ldt (week_of [(time_min, time_max)])"
  using weekday_range [of ldt] by (simp add: is_store_open_def map_get_def week_of_def)

theorem open_minutes_conservation_witness:
  "calculate_store_uptime_for_period example_pytz 1 ''UTC'' (week_of [(time_min, time_max)])
     (Aware 0) (Naive 3600000000)
     [\<lparr>poll_store_id = 1, timestamp_utc = Aware 900000000, status = ''active''\<rparr>] = Inr (45, 15)
   \<and> (45::int) + 15 =
       int (card {k. bucket_start (as_utc (Aware 0)) k < as_utc (Naive 3600000000)
                   \<and> is_store_open
                       (fixed_offset_tz 0 (bucket_start (as_utc (Aware 0)) k))
                       (week_of [(time_min, time_max)])})"
proof -
  have r: "resolve_timezone example_pytz ''UTC'' = Inr (fixed_offset_tz 0)"
    by (simp add: resolve_timezone_def example_pytz_def)
  have v: "calculate_store_uptime_for_period example_pytz 1 ''UTC''
     (week_of [(time_min, time_max)]) (Aware 0) (Naive 3600000000)
     [\<lparr>poll_store_id = 1, timestamp_utc = Aware 900000000, status = ''active''\<rparr>] = Inr (45, 15)"
    by (simp add: calculate_store_uptime_for_period_def resolve_timezone_def example_pytz_def
        minute_loop.simps timedelta_minutes_def get_status_at_time_def poll_time_def
        week_of_full_open DEFAULT_STORE_STATUS_def)
  from open_minutes_conservation [OF r, of 1 "week_of [(time_min, time_max)]" "Aware 0"
      "Naive 3600000000"
      "[\<lparr>poll_store_id = 1, timestamp_utc = Aware 900000000, status = ''active''\<rparr>]"]
  obtain up down where
    "calculate_store_uptime_for_period example_pytz 1 ''UTC''
       (week_of [(time_min, time_max)]) (Aware 0) (Naive 3600000000)
       [\<lparr>poll_store_id = 1, timestamp_utc = Aware 900000000, status = ''active''\<rparr>]
     = Inr (up, down)"
    and "up + down =
       int (card {k. bucket_start (as_utc (Aware 0)) k < as_utc (Naive 3600000000)
                   \<and> is_store_open
                       (fixed_offset_tz 0 (bucket_start (as_utc (Aware 0)) k))
                       (week_of [(time_min, time_max)])})"
    by blast
  with v show ?thesis by simp
qed

lemma scanned_minutes_set:
  "set (scanned_minutes s e) = {t. \<exists>k. t = bucket_start s k \<and> t < e}"
  by (auto simp: scanned_minutes_buckets bucket_in_window)

lemma bucket_start_mono: "s \<le> bucket_start s k"
  by (simp add: bucket_start_def timedelta_minutes_def)

lemma bucket_start_inj: "inj (bucket_start s)"
  by (rule injI) (simp add: bucket_start_def timedelta_minutes_def)

text \<open>
  Claim C7. The counts of the engine are those of the instants at which the body of its
  loop runs, and these are, each once, the bucket starts \<open>start + k minutes\<close> that lie in
  the half-open window: the start of a non-empty window is one of them, the end of the
  window is not, and all of them are at or after the start and before the end.
\<close>

theorem half_open_minute_scan:
  assumes "resolve_timezone pytz store_timezone_str = Inr store_tz"
  shows "calculate_store_uptime_for_period pytz sid store_timezone_str bhm
             interval_start_utc interval_end_utc polls =
           Inr (int (length (filter (counts_up store_tz bhm polls)
                       (scanned_minutes (as_utc interval_start_utc) (as_utc interval_end_utc)))),
                int (length (filter (counts_down store_tz bhm polls)
                       (scanned_minutes (as_utc interval_start_utc) (as_utc interval_end_utc)))))
       \<and> set (scanned_minutes (as_utc interval_start_utc) (as_utc interval_end_utc)) =
           {t. \<exists>k. t = bucket_start (as_utc interval_start_utc) k \<and> t < as_utc interval_end_utc}
       \<and> distinct (scanned_minutes (as_utc interval_start_utc) (as_utc interval_end_utc))
       \<and> (as_utc interval_start_utc < as_utc interval_end_utc \<longrightarrow>
            as_utc interval_start_utc
              \<in> set (scanned_minutes (as_utc interval_start_utc) (as_utc interval_end_utc)))
       \<and> as_utc interval_end_utc
            \<notin> set (scanned_minutes (as_utc interval_start_utc) (as_utc interval_end_utc))
       \<and> (\<forall>t \<in> set (scanned_minutes (as_utc interval_start_utc) (as_utc interval_end_utc)).
            as_utc interval_start_utc \<le> t \<and> t < as_utc interval_end_utc)"
proof (intro conjI impI ballI)
  show "calculate_store_uptime_for_period pytz sid store_timezone_str bhm
             interval_start_utc interval_end_utc polls =
           Inr (int (length (filter (counts_up store_tz bhm polls)
                       (scanned_minutes (as_utc interval_start_utc) (as_utc interval_end_utc)))),
                int (length (filter (counts_down store_tz bhm polls)
                       (scanned_minutes (as_utc interval_start_utc) (as_utc interval_end_utc)))))"
    using assms by (simp add: calculate_store_uptime_for_period_def minute_loop_scanned)
next
  show "set (scanned_minutes (as_utc interval_start_utc) (as_utc interval_end_utc)) =
      {t. \<exists>k. t = bucket_start (as_utc interval_start_utc) k \<and> t < as_utc interval_end_utc}"
    by (rule scanned_minutes_set)
next
  show "distinct (scanned_minutes (as_utc interval_start_utc) (as_utc interval_end_utc))"
    by (simp add: scanned_minutes_buckets distinct_map bucket_start_inj inj_on_subset [OF bucket_start_inj])
next
  assume "as_utc interval_start_utc < as_utc interval_end_utc"
  then show "as_utc interval_start_utc
      \<in> set (scanned_minutes (as_utc interval_start_utc) (as_utc interval_end_utc))"
    by (subst scanned_minutes.simps) simp
next
  show "as_utc interval_end_utc
      \<notin> set (scanned_minutes (as_utc interval_start_utc) (as_utc interval_end_utc))"
    by (simp add: scanned_minutes_set)
next
  fix t
  assume "t \<in> set (scanned_minutes (as_utc interval_start_utc) (as_utc interval_end_utc))"
  then show "as_utc interval_start_utc \<le> t" and "t < as_utc interval_end_utc"
    using bucket_start_mono [of "as_utc interval_start_utc"]
    by (auto simp: scanned_minutes_set)
qed

theorem half_open_minute_scan_witness:
  "calculate_store_uptime_for_period example_pytz 1 ''UTC'' (week_of [(time_min, time_max)])
     (Aware 0) (Aware 150000000)
     [\<lparr>poll_store_id = 1, timestamp_utc = Aware 60000000, status = ''active''\<rparr>] = Inr (2, 1)
   \<and> scanned_minutes (as_utc (Aware 0)) (as_utc (Aware 150000000)) = [0, 60000000, 120000000]
   \<and> as_utc (Aware 0) \<in> set (scanned_minutes (as_utc (Aware 0)) (as_utc (Aware 150000000)))
   \<and> as_utc (Aware 150000000)
        \<notin> set (scanned_minutes (as_utc (Aware 0)) (as_utc (Aware 150000000)))"
proof -
  have r: "resolve_timezone example_pytz ''UTC'' = Inr (fixed_offset_tz 0)"
    by (simp add: resolve_timezone_def example_pytz_def)
  have s: "scanned_minutes (as_utc (Aware 0)) (as_utc (Aware 150000000))
      = [0, 60000000, 120000000]"
    by (simp add: scanned_minutes.simps timedelta_minutes_def)
  have lt: "as_utc (Aware 0) < as_utc (Aware 150000000)"
    by simp
  note scan = half_open_minute_scan [OF r, of 1 "week_of [(time_min, time_max)]" "Aware 0"
      "Aware 150000000"
      "[\<lparr>poll_store_id = 1, timestamp_utc = Aware 60000000, status = ''active''\<rparr>]"]
  from scan have counts:
    "calculate_store_uptime_for_period example_pytz 1 ''UTC'' (week_of [(time_min, time_max)])
       (Aware 0) (Aware 150000000)
       [\<lparr>poll_store_id = 1, timestamp_utc = Aware 60000000, status = ''active''\<rparr>] =
     Inr (int (length (filter (counts_up (fixed_offset_tz 0) (week_of [(time_min, time_max)])
                 [\<lparr>poll_store_id = 1, timestamp_utc = Aware 60000000, status = ''active''\<rparr>])
                 (scanned_minutes (as_utc (Aware 0)) (as_utc (Aware 150000000))))),
          int (length (filter (counts_down (fixed_offset_tz 0) (week_of [(time_min, time_max)])
                 [\<lparr>poll_store_id = 1, timestamp_utc = Aware 60000000, status = ''active''\<rparr>])
                 (scanned_minutes (as_utc (Aware 0)) (as_utc (Aware 150000000))))))"
    by (rule conjunct1)
  from scan lt have first: "as_utc (Aware 0)
      \<in> set (scanned_minutes (as_utc (Aware 0)) (as_utc (Aware 150000000)))"
    by blast
  from scan have last: "as_utc (Aware 150000000)
      \<notin> set (scanned_minutes (as_utc (Aware 0)) (as_utc (Aware 150000000)))"
    by blast
  have "calculate_store_uptime_for_period example_pytz 1 ''UTC'' (week_of [(time_min, time_max)])
     (Aware 0) (Aware 150000000)
     [\<lparr>poll_store_id = 1, timestamp_utc = Aware 60000000, status = ''active''\<rparr>] = Inr (2, 1)"
    unfolding counts s
    by (simp add: counts_up_def counts_down_def week_of_full_open get_status_at_time_def
        poll_time_def DEFAULT_STORE_STATUS_def)
  with first last s show ?thesis by blast
qed








section \<open>The report\<close>

lemma minute_loop_minutes:
  "minute_loop tz bhm polls s e (0, 0) =
     (minutes_up tz bhm polls s (minutes_in_window s e),
      minutes_down tz bhm polls s (minutes_in_window s e))"
  by (simp add: minute_loop_scanned scanned_minutes_buckets minutes_up_def minutes_down_def
      filter_map o_def)

lemma minutes_in_window_hour: "minutes_in_window (r - timedelta_hours 1) r = 60"
  by (simp add: minutes_in_window_def timedelta_hours_def timedelta_minutes_def)

lemma minutes_in_window_day: "minutes_in_window (r - timedelta_days 1) r = 1440"
  by (simp add: minutes_in_window_def timedelta_days_def timedelta_minutes_def)

lemma minutes_in_window_week: "minutes_in_window (r - timedelta_days 7) r = 10080"
  by (simp add: minutes_in_window_def timedelta_days_def timedelta_minutes_def)

lemma py_round_of_int: "py_round (of_int n) = n"
  by (simp add: py_round_def)

lemma py_round_strict:
  assumes "y - of_int \<lfloor>y\<rfloor> \<noteq> 1 / 2"
  shows "\<bar>of_int (py_round y) - y\<bar> < 1 / 2"
proof -
  define f where "f = \<lfloor>y\<rfloor>"
  have lo: "of_int f \<le> y" and hi: "y < of_int f + 1"
    unfolding f_def by linarith+
  from assms consider "y - of_int f < 1 / 2" | "1 / 2 < y - of_int f"
    unfolding f_def by linarith
  then show ?thesis
  proof cases
    case 1
    then have "py_round y = f"
      by (simp add: py_round_def f_def)
    with 1 lo show ?thesis
      by (simp add: abs_if)
  next
    case 2
    then have "py_round y = f + 1"
      by (simp add: py_round_def f_def)
    with 2 hi show ?thesis
      by (simp add: abs_if)
  qed
qed

lemma minutes_never_tie:
  fixes n :: int
  shows "(of_int n / 60 * 10 ^ 2 :: rat) - of_int \<lfloor>of_int n / 60 * 10 ^ 2 :: rat\<rfloor> \<noteq> 1 / 2"
proof
  let ?f = "\<lfloor>of_int n / 60 * 10 ^ 2 :: rat\<rfloor>"
  assume "(of_int n / 60 * 10 ^ 2 :: rat) - of_int ?f = 1 / 2"
  then have "(of_int n * 10 :: rat) = of_int ?f * 6 + 3"
    by (simp add: field_simps)
  then have "(of_int (n * 10) :: rat) = of_int (?f * 6 + 3)"
    by simp
  then have "n * 10 = ?f * 6 + 3"
    by (simp only: of_int_eq_iff)
  then show False
    by presburger
qed

lemma hours_rounding:
  fixes n :: int
  shows "\<bar>py_round_ndigits (of_int n / 60) 2 - of_int n / 60\<bar> < 1 / 200
       \<and> (\<exists>j::int. py_round_ndigits (of_int n / 60) 2 = of_int j / 100)"
proof
  let ?y = "of_int n / 60 * 10 ^ 2 :: rat"
  have strict: "\<bar>of_int (py_round ?y) - ?y\<bar> < 1 / 2"
    using minutes_never_tie by (rule py_round_strict)
  have eq: "py_round_ndigits (of_int n / 60) 2 - of_int n / 60
      = (of_int (py_round ?y) - ?y) / 100"
    by (simp add: py_round_ndigits_def field_simps)
  have "\<bar>(of_int (py_round ?y) - ?y) / 100\<bar> = \<bar>of_int (py_round ?y) - ?y\<bar> / 100"
    by simp
  also have "\<dots> < 1 / 2 / 100"
    using strict by (rule divide_strict_right_mono) simp
  finally show "\<bar>py_round_ndigits (of_int n / 60) 2 - of_int n / 60\<bar> < 1 / 200"
    unfolding eq by simp
next
  show "\<exists>j::int. py_round_ndigits (of_int n / 60) 2 = of_int j / 100"
    by (auto simp: py_round_ndigits_def)
qed


lemma calculate_minutes:
  "resolve_timezone pytz tzs = Inr tz \<Longrightarrow>
   calculate_store_uptime_for_period pytz sid tzs bhm (Aware a) (Aware b) polls =
     Inr (minutes_up tz bhm polls a (minutes_in_window a b),
          minutes_down tz bhm polls a (minutes_in_window a b))"
  by (simp add: calculate_store_uptime_for_period_def minute_loop_minutes)

lemma timedelta_day_hours: "timedelta_days 1 = timedelta_hours 24"
  by (simp add: timedelta_days_def timedelta_hours_def)

text \<open>
  Claim C6. With \<open>ref\<close> the reference instant, the report holds the counts of three windows:
  the 60 buckets from \<open>ref - 1 h\<close>, the 1440 buckets from \<open>ref - 24 h\<close> and the 10080 buckets
  from \<open>ref - 7 d\<close>; in each the bucket after the last one starts at \<open>ref\<close>, so that each
  window is half-open and ends at \<open>ref\<close>. The two last-hour fields are the whole numbers
  of minutes; the last-day and last-week fields are the minutes divided by 60 and rounded
  to two decimals: a whole number of hundredths less than half a hundredth away from the
  quotient.
\<close>

theorem report_windows_and_units:
  assumes "resolve_timezone pytz (timezone_str store) = Inr store_tz"
    and "get_business_hours_for_store db (store_id store) = Inr bhm"
  shows "let ref = as_utc reference;
             polls = query_polls db (store_id store)
                       (ref - timedelta_days 7 - timedelta_hours POLL_FETCH_BUFFER_HOURS) ref
         in \<exists>r. generate_report_data_for_store pytz db store reference = Inr r
              \<and> report_store_id r = store_id store
              \<and> uptime_last_hour r = minutes_up store_tz bhm polls (ref - timedelta_hours 1) 60
              \<and> downtime_last_hour r = minutes_down store_tz bhm polls (ref - timedelta_hours 1) 60
              \<and> uptime_last_day r = py_round_ndigits
                   (of_int (minutes_up store_tz bhm polls (ref - timedelta_hours 24) 1440) / 60) 2
              \<and> downtime_last_day r = py_round_ndigits
                   (of_int (minutes_down store_tz bhm polls (ref - timedelta_hours 24) 1440) / 60) 2
              \<and> uptime_last_week r = py_round_ndigits
                   (of_int (minutes_up store_tz bhm polls (ref - timedelta_days 7) 10080) / 60) 2
              \<and> downtime_last_week r = py_round_ndigits
                   (of_int (minutes_down store_tz bhm polls (ref - timedelta_days 7) 10080) / 60) 2
              \<and> bucket_start (ref - timedelta_hours 1) 60 = ref
              \<and> bucket_start (ref - timedelta_hours 24) 1440 = ref
              \<and> bucket_start (ref - timedelta_days 7) 10080 = ref
              \<and> (\<forall>n::int. \<bar>py_round_ndigits (of_int n / 60) 2 - of_int n / 60\<bar> < 1 / 200
                    \<and> (\<exists>j::int. py_round_ndigits (of_int n / 60) 2 = of_int j / 100))"
proof -
  let ?ref = "as_utc reference"
  let ?polls = "query_polls db (store_id store)
      (?ref - timedelta_days 7 - timedelta_hours POLL_FETCH_BUFFER_HOURS) ?ref"
  note calc = calculate_minutes [OF assms(1), of "store_id store" bhm _ ?ref ?polls]
  have hour: "calculate_store_uptime_for_period pytz (store_id store) (timezone_str store) bhm
      (Aware (?ref - timedelta_hours 1)) (Aware ?ref) ?polls =
      Inr (minutes_up store_tz bhm ?polls (?ref - timedelta_hours 1) 60,
           minutes_down store_tz bhm ?polls (?ref - timedelta_hours 1) 60)"
    by (simp only: calc minutes_in_window_hour)
  have day: "calculate_store_uptime_for_period pytz (store_id store) (timezone_str store) bhm
      (Aware (?ref - timedelta_days 1)) (Aware ?ref) ?polls =
      Inr (minutes_up store_tz bhm ?polls (?ref - timedelta_hours 24) 1440,
           minutes_down store_tz bhm ?polls (?ref - timedelta_hours 24) 1440)"
    by (simp only: calc minutes_in_window_day) (simp only: timedelta_day_hours)
  have week: "calculate_store_uptime_for_period pytz (store_id store) (timezone_str store) bhm
      (Aware (?ref - timedelta_days 7)) (Aware ?ref) ?polls =
      Inr (minutes_up store_tz bhm ?polls (?ref - timedelta_days 7) 10080,
           minutes_down store_tz bhm ?polls (?ref - timedelta_days 7) 10080)"
    by (simp only: calc minutes_in_window_week)
  have ends: "bucket_start (?ref - timedelta_hours 1) 60 = ?ref"
    "bucket_start (?ref - timedelta_hours 24) 1440 = ?ref"
    "bucket_start (?ref - timedelta_days 7) 10080 = ?ref"
    by (simp_all add: bucket_start_def timedelta_minutes_def timedelta_hours_def
        timedelta_days_def)
  have "generate_report_data_for_store pytz db store reference =
      Inr \<lparr> report_store_id = store_id store,
            uptime_last_hour = minutes_up store_tz bhm ?polls (?ref - timedelta_hours 1) 60,
            uptime_last_day = py_round_ndigits
              (of_int (minutes_up store_tz bhm ?polls (?ref - timedelta_hours 24) 1440) / 60) 2,
            uptime_last_week = py_round_ndigits
              (of_int (minutes_up store_tz bhm ?polls (?ref - timedelta_days 7) 10080) / 60) 2,
            downtime_last_hour = minutes_down store_tz bhm ?polls (?ref - timedelta_hours 1) 60,
            downtime_last_day = py_round_ndigits
              (of_int (minutes_down store_tz bhm ?polls (?ref - timedelta_hours 24) 1440) / 60) 2,
            downtime_last_week = py_round_ndigits
              (of_int (minutes_down store_tz bhm ?polls (?ref - timedelta_days 7) 10080) / 60) 2 \<rparr>"
    by (simp add: generate_report_data_for_store_def Let_def assms(2) hour day week
        py_round_of_int)
  with ends hours_rounding show ?thesis
    by (simp add: Let_def)
qed


theorem report_windows_and_units_witness:
  "\<exists>r. generate_report_data_for_store example_pytz
          \<lparr>business_hours = [],
           store_status_polls =
             [\<lparr>poll_store_id = 1, timestamp_utc = Aware 900000000, status = ''active''\<rparr>]\<rparr>
          \<lparr>store_id = 1, timezone_str = ''UTC''\<rparr> (Aware 3600000000) = Inr r
       \<and> uptime_last_hour r = 45 \<and> downtime_last_hour r = 15"
proof -
  let ?db = "\<lparr>business_hours = [],
      store_status_polls =
        [\<lparr>poll_store_id = 1, timestamp_utc = Aware 900000000, status = ''active''\<rparr>]\<rparr>"
  let ?store = "\<lparr>store_id = 1, timezone_str = ''UTC''\<rparr>"
  let ?polls = "[\<lparr>poll_store_id = 1, timestamp_utc = Aware 900000000, status = ''active''\<rparr>]"
  let ?week = "week_of [(time_min, time_max)]"
  have tz: "resolve_timezone example_pytz (timezone_str ?store) = Inr (fixed_offset_tz 0)"
    by (simp add: resolve_timezone_def example_pytz_def)
  have bh: "get_business_hours_for_store ?db (store_id ?store) = Inr ?week"
    by (simp add: get_business_hours_for_store_def)
  have q: "query_polls ?db (store_id ?store)
      (as_utc (Aware 3600000000) - timedelta_days 7 - timedelta_hours POLL_FETCH_BUFFER_HOURS)
      (as_utc (Aware 3600000000)) = ?polls"
    by (simp add: query_polls_def poll_time_def timedelta_days_def timedelta_hours_def
        POLL_FETCH_BUFFER_HOURS_def)
  have "minute_loop (fixed_offset_tz 0) ?week ?polls 0 3600000000 (0, 0) = (45, 15)"
    by (simp add: minute_loop.simps timedelta_minutes_def get_status_at_time_def poll_time_def
        week_of_full_open DEFAULT_STORE_STATUS_def)
  moreover have "minutes_in_window 0 3600000000 = 60"
    by (simp add: minutes_in_window_def timedelta_minutes_def)
  ultimately have m: "minutes_up (fixed_offset_tz 0) ?week ?polls 0 60 = 45"
    "minutes_down (fixed_offset_tz 0) ?week ?polls 0 60 = 15"
    using minute_loop_minutes [of "fixed_offset_tz 0" ?week ?polls 0 3600000000] by simp_all
  have h: "as_utc (Aware 3600000000) - timedelta_hours 1 = 0"
    by (simp add: timedelta_hours_def)
  from report_windows_and_units [OF tz bh, of "Aware 3600000000"]
  show ?thesis
    unfolding Let_def q h m by blast
qed

section \<open>The work of the status queries\<close>

lemma status_scan_cost_fst: "fst (status_scan_cost t acc ps) = status_scan t acc ps"
  by (induction ps arbitrary: acc) (simp_all add: case_prod_beta)

lemma status_scan_cost_le: "snd (status_scan_cost t acc ps) \<le> length ps"
  by (induction ps arbitrary: acc) (simp_all add: case_prod_beta)

lemma status_scan_cost_all:
  "\<forall>p\<in>set ps. poll_time p \<le> t \<Longrightarrow> snd (status_scan_cost t acc ps) = length ps"
  by (induction ps arbitrary: acc) (simp_all add: case_prod_beta)

lemma minute_loop_cost_eq:
  "minute_loop_cost tz bhm polls s e st =
     (minute_loop tz bhm polls s e (fst st),
      snd st + sum_list (map (\<lambda>t. snd (get_status_at_time_cost t polls))
                 (filter (\<lambda>t. is_store_open (tz t) bhm) (scanned_minutes s e))))"
proof (induction tz bhm polls s e st rule: minute_loop_cost.induct)
  case (1 tz bhm polls s e up down looked)
  show ?case
  proof (cases "s < e")
    case True
    note IH = "1.IH" [OF True refl refl refl]
    have sm: "scanned_minutes s e = s # scanned_minutes (s + timedelta_minutes 1) e"
      using True by (subst scanned_minutes.simps) simp
    have res: "fst (get_status_at_time_cost s polls) = get_status_at_time s polls"
      by (simp add: get_status_at_time_cost_def get_status_at_time_def status_scan_cost_fst)
    show ?thesis
      apply (simp only: fst_conv snd_conv)
      apply (subst minute_loop_cost.simps)
      apply (subst minute_loop.simps)
      apply (simp add: True IH sm Let_def res [symmetric] case_prod_beta)
      done
  next
    case False
    then have "scanned_minutes s e = []"
      by (subst scanned_minutes.simps) simp
    with False show ?thesis
      apply (simp only: fst_conv snd_conv)
      apply (subst minute_loop_cost.simps)
      apply (subst minute_loop.simps)
      apply simp
      done
  qed
qed

lemma sum_list_bounded: "\<forall>x\<in>set xs. f x \<le> (c::nat) \<Longrightarrow> sum_list (map f xs) \<le> c * length xs"
  by (induction xs) auto

lemma sum_list_constant: "\<forall>x\<in>set xs. f x = (c::nat) \<Longrightarrow> sum_list (map f xs) = c * length xs"
  by (induction xs) auto

lemma open_minutes_scanned:
  "length (filter (\<lambda>t. is_store_open (tz t) bhm) (scanned_minutes s e)) =
     card {k. bucket_start s k < e \<and> is_store_open (tz (bucket_start s k)) bhm}"
  using length_filter_buckets [of "\<lambda>t. is_store_open (tz t) bhm" "bucket_start s"
      "minutes_in_window s e"]
  by (simp add: scanned_minutes_buckets filter_map bucket_in_window)


text \<open>
  The claim of a forward cursor fails on the code. Below, three polls lie before a window
  of five minutes at a store that is always open: each of the five queries runs the body
  of the scan three times, from the first poll on, fifteen times in all, where a cursor
  that only moves forward over three polls during five queries takes at most eight steps.
\<close>

theorem status_cursor_counterexample:
  "snd (minute_loop_cost (fixed_offset_tz 0) (week_of [(time_min, time_max)])
          [\<lparr>poll_store_id = 1, timestamp_utc = Aware (- 180000000), status = ''active''\<rparr>,
           \<lparr>poll_store_id = 1, timestamp_utc = Aware (- 120000000), status = ''inactive''\<rparr>,
           \<lparr>poll_store_id = 1, timestamp_utc = Aware (- 60000000), status = ''active''\<rparr>]
          0 300000000 ((0, 0), 0)) = 15
   \<and> snd (get_status_at_time_cost 240000000
          [\<lparr>poll_store_id = 1, timestamp_utc = Aware (- 180000000), status = ''active''\<rparr>,
           \<lparr>poll_store_id = 1, timestamp_utc = Aware (- 120000000), status = ''inactive''\<rparr>,
           \<lparr>poll_store_id = 1, timestamp_utc = Aware (- 60000000), status = ''active''\<rparr>]) = 3
   \<and> scanned_minutes 0 300000000 = [0, 60000000, 120000000, 180000000, 240000000]
   \<and> \<not> (15::nat) \<le> 3 + 5"
  by (simp add: minute_loop_cost.simps scanned_minutes.simps timedelta_minutes_def
      get_status_at_time_cost_def poll_time_def week_of_full_open)

text \<open>
  Claim C9, as the code has it. \<open>get_status_at_time\<close> keeps no cursor: every query scans
  the list of polls from its first element, up to the first poll later than the target,
  and runs the body of its loop at most once per poll, exactly once per poll when no poll
  is later than the target. Over a window the engine makes one such query per open
  minute: the body runs at most (number of polls) times (number of open minutes) times,
  and exactly that often when no poll is later than the start of the window. The counting
  loops return the results of \<open>get_status_at_time\<close> and of the engine's loop.
\<close>

theorem status_queries_rescan_from_start:
  "fst (get_status_at_time_cost t polls) = get_status_at_time t polls
   \<and> snd (get_status_at_time_cost t polls) \<le> length polls
   \<and> ((\<forall>p\<in>set polls. poll_time p \<le> t) \<longrightarrow>
        snd (get_status_at_time_cost t polls) = length polls)
   \<and> fst (minute_loop_cost tz bhm polls s e ((0, 0), 0)) = minute_loop tz bhm polls s e (0, 0)
   \<and> snd (minute_loop_cost tz bhm polls s e ((0, 0), 0)) \<le>
        length polls * card {k. bucket_start s k < e \<and> is_store_open (tz (bucket_start s k)) bhm}
   \<and> ((\<forall>p\<in>set polls. poll_time p \<le> s) \<longrightarrow>
        snd (minute_loop_cost tz bhm polls s e ((0, 0), 0)) =
        length polls * card {k. bucket_start s k < e \<and> is_store_open (tz (bucket_start s k)) bhm})"
proof (intro conjI impI)
  show "fst (get_status_at_time_cost t polls) = get_status_at_time t polls"
    by (simp add: get_status_at_time_cost_def get_status_at_time_def status_scan_cost_fst)
next
  show "snd (get_status_at_time_cost t polls) \<le> length polls"
    by (simp add: get_status_at_time_cost_def status_scan_cost_le)
next
  assume "\<forall>p\<in>set polls. poll_time p \<le> t"
  then show "snd (get_status_at_time_cost t polls) = length polls"
    unfolding get_status_at_time_cost_def by (rule status_scan_cost_all)
next
  show "fst (minute_loop_cost tz bhm polls s e ((0, 0), 0)) = minute_loop tz bhm polls s e (0, 0)"
    by (simp add: minute_loop_cost_eq)
next
  have "\<forall>x\<in>set (filter (\<lambda>t. is_store_open (tz t) bhm) (scanned_minutes s e)).
      snd (get_status_at_time_cost x polls) \<le> length polls"
    by (simp add: get_status_at_time_cost_def status_scan_cost_le)
  from sum_list_bounded [OF this]
  show "snd (minute_loop_cost tz bhm polls s e ((0, 0), 0)) \<le>
      length polls * card {k. bucket_start s k < e \<and> is_store_open (tz (bucket_start s k)) bhm}"
    by (simp add: minute_loop_cost_eq open_minutes_scanned)
next
  assume before: "\<forall>p\<in>set polls. poll_time p \<le> s"
  have "\<forall>x\<in>set (filter (\<lambda>t. is_store_open (tz t) bhm) (scanned_minutes s e)).
      snd (get_status_at_time_cost x polls) = length polls"
  proof
    fix x
    assume "x \<in> set (filter (\<lambda>t. is_store_open (tz t) bhm) (scanned_minutes s e))"
    then have "x \<in> set (scanned_minutes s e)" by simp
    then have "s \<le> x"
      using bucket_start_mono [of s] by (auto simp: scanned_minutes_set)
    with before have "\<forall>p\<in>set polls. poll_time p \<le> x" by force
    then show "snd (get_status_at_time_cost x polls) = length polls"
      unfolding get_status_at_time_cost_def by (rule status_scan_cost_all)
  qed
  from sum_list_constant [OF this]
  show "snd (minute_loop_cost tz bhm polls s e ((0, 0), 0)) =
      length polls * card {k. bucket_start s k < e \<and> is_store_open (tz (bucket_start s k)) bhm}"
    by (simp add: minute_loop_cost_eq open_minutes_scanned)
qed

theorem status_queries_rescan_from_start_witness:
  "snd (get_status_at_time_cost 60000000
          [\<lparr>poll_store_id = 1, timestamp_utc = Aware 0, status = ''active''\<rparr>,
           \<lparr>poll_store_id = 1, timestamp_utc = Aware 30000000, status = ''inactive''\<rparr>]) = 2
   \<and> snd (minute_loop_cost (fixed_offset_tz 0) (week_of [(time_min, time_max)])
          [\<lparr>poll_store_id = 1, timestamp_utc = Aware 0, status = ''active''\<rparr>,
           \<lparr>poll_store_id = 1, timestamp_utc = Aware 30000000, status = ''inactive''\<rparr>]
          60000000 240000000 ((0, 0), 0)) =
       2 * card {k. bucket_start 60000000 k < 240000000
                  \<and> is_store_open (fixed_offset_tz 0 (bucket_start 60000000 k))
                      (week_of [(time_min, time_max)])}"
  using status_queries_rescan_from_start [of 60000000
      "[\<lparr>poll_store_id = 1, timestamp_utc = Aware 0, status = ''active''\<rparr>,
        \<lparr>poll_store_id = 1, timestamp_utc = Aware 30000000, status = ''inactive''\<rparr>]"
      "fixed_offset_tz 0" "week_of [(time_min, time_max)]" 60000000 240000000]
  by (simp add: poll_time_def)

end
